theory Spec2Isabelle
  imports Main "HOL-Library.Monad_Syntax"
begin

section \<open>The test selector of roachtest: sfselector/consumer.go\<close>

text \<open>
  The file \<^verbatim>\<open>pkg/cmd/roachtest-selector/sfselector/consumer.go\<close> reads a CSV object
  of per-test statistics from a storage bucket, builds a map from test name to
  \<^verbatim>\<open>testInfo\<close>, and then walks the slice of test specifications, marking some of them
  as skipped in place and counting the others.

  Go's \<^verbatim>\<open>(int, error)\<close> result together with the in-place mutation of the slice is
  modelled by explicit state passing: the function returns the slice, the count and
  the optional error. A run-time panic (index out of range) is a value of its own.
\<close>

subsection \<open>Data\<close>

text \<open>\<^verbatim>\<open>testInfo\<close> (consumer.go, lines 31-35). \<^verbatim>\<open>int64\<close> and \<^verbatim>\<open>int\<close> are integers;
  no arithmetic is done on them after parsing, and the parser below keeps them in
  the 64-bit range.\<close>

record testInfo =
  selected :: bool
  avgDurationInMillis :: int
  totalRuns :: int

type_synonym table = "string \<rightharpoonup> testInfo"

text \<open>Modelled from the spec: \<^verbatim>\<open>registry.SuiteSet\<close> is declared in package
  \<^verbatim>\<open>registry\<close>, outside the given source. The spec describes it as
  ``set-of-string | uninitialized-marker'', with the two operations the selector calls.
  \<^verbatim>\<open>Contains\<close> is only reached behind \<^verbatim>\<open>IsInitialized() &&\<close>, so its value on the
  uninitialised set is never used.\<close>

datatype SuiteSet = Uninitialized | Suites "string set"

fun IsInitialized :: "SuiteSet \<Rightarrow> bool" where
  "IsInitialized Uninitialized = False"
| "IsInitialized (Suites S) = True"

fun Contains :: "SuiteSet \<Rightarrow> string \<Rightarrow> bool" where
  "Contains Uninitialized suite = False"
| "Contains (Suites S) suite = (suite \<in> S)"

text \<open>Modelled from the spec: \<^verbatim>\<open>registry.TestSpec\<close> is declared in package
  \<^verbatim>\<open>registry\<close>, outside the given source. Only the four fields that consumer.go
  reads or writes are kept.\<close>

record TestSpec =
  Name :: string
  Skip :: string
  SkipDetails :: string
  TestSelectionOptOutSuites :: SuiteSet

subsection \<open>Parsing the numeric cells\<close>

text \<open>
  \<^verbatim>\<open>getDuration\<close> and \<^verbatim>\<open>getTotalRuns\<close> call \<^verbatim>\<open>strconv.ParseInt(s, 10, 64)\<close> of Go's
  standard library and drop its error. The library function is modelled here for
  base 10 and 64 bits, following strconv/atoi.go: the value returned next to a syntax
  error is 0, the value returned next to a range error is the nearest bound
  (``the returned value is the maximum magnitude integer of the appropriate bitSize
  and sign''), and the digit loop returns at the first overflow.
\<close>

datatype numError = ErrSyntax | ErrRange

definition maxUint64 :: nat where
  "maxUint64 = 2 ^ 64 - 1"

text \<open>\<^verbatim>\<open>lower(c)\<close> is \<^verbatim>\<open>c | ('x' - 'X')\<close>: it sets the bit of value 32 of the byte.\<close>

definition lower :: "nat \<Rightarrow> nat" where
  "lower c = (if c div 32 mod 2 = 0 then c + 32 else c)"

text \<open>The \<^verbatim>\<open>switch\<close> of the loop of \<^verbatim>\<open>ParseUint\<close> for one byte, followed by the test
  \<^verbatim>\<open>d >= byte(base)\<close> with base 10: the value of the digit, or \<open>None\<close> for the syntax
  error. The underscore is only accepted for base 0, so here it is a syntax error too.\<close>

definition digitOf :: "char \<Rightarrow> nat option" where
  "digitOf ch =
     (let c = (of_char ch :: nat) in
      case (if 48 \<le> c \<and> c \<le> 57 then Some (c - 48)
            else if 97 \<le> lower c \<and> lower c \<le> 122 then Some (lower c - 97 + 10)
            else None) of
        None \<Rightarrow> None
      | Some d \<Rightarrow> if d \<ge> 10 then None else Some d)"

text \<open>The loop of \<^verbatim>\<open>ParseUint\<close> from the value \<open>n\<close> read so far. The cutoff is
  \<^verbatim>\<open>maxUint64/10 + 1\<close>; the product and the sum wrap at 64 bits, and the test
  \<^verbatim>\<open>n1 < n || n1 > maxVal\<close> catches the wrapped sum.\<close>

fun parseDigits :: "string \<Rightarrow> nat \<Rightarrow> nat \<times> numError option" where
  "parseDigits [] n = (n, None)"
| "parseDigits (ch # cs) n =
     (case digitOf ch of
        None \<Rightarrow> (0, Some ErrSyntax)
      | Some d \<Rightarrow>
          if n \<ge> maxUint64 div 10 + 1 then (maxUint64, Some ErrRange)
          else let n10 = (n * 10) mod 2 ^ 64;
                   n1 = (n10 + d) mod 2 ^ 64
               in if n1 < n10 \<or> n1 > maxUint64 then (maxUint64, Some ErrRange)
                  else parseDigits cs n1)"

text \<open>\<^verbatim>\<open>ParseUint(s, 10, 64)\<close> and \<^verbatim>\<open>ParseInt(s, 10, 64)\<close>: the value and the error
  (\<open>None\<close> for \<^verbatim>\<open>nil\<close>). \<^verbatim>\<open>ParseInt\<close> takes the sign off, passes a syntax error on with the
  value 0, and turns a magnitude that does not fit into the bound of its sign.\<close>

definition ParseUint :: "string \<Rightarrow> nat \<times> numError option" where
  "ParseUint s = (if s = [] then (0, Some ErrSyntax) else parseDigits s 0)"

definition ParseInt :: "string \<Rightarrow> int \<times> numError option" where
  "ParseInt s0 =
     (if s0 = [] then (0, Some ErrSyntax)
      else
        let neg = (hd s0 = CHR ''-'');
            s = (if hd s0 = CHR ''+'' \<or> hd s0 = CHR ''-'' then tl s0 else s0)
        in case ParseUint s of (un, err) \<Rightarrow>
             if err = Some ErrSyntax then (0, err)
             else if \<not> neg \<and> un \<ge> 2 ^ 63 then (2 ^ 63 - 1, Some ErrRange)
             else if neg \<and> un > 2 ^ 63 then (- (2 ^ 63), Some ErrRange)
             else (if neg then - int un else int un, None))"

text \<open>consumer.go, lines 106-115. \<^verbatim>\<open>int(totalRuns)\<close> is the identity where \<^verbatim>\<open>int\<close>
  has 64 bits.\<close>

definition getDuration :: "string \<Rightarrow> int" where
  "getDuration durationStr = fst (ParseInt durationStr)"

definition getTotalRuns :: "string \<Rightarrow> int" where
  "getTotalRuns totalRunsStr = fst (ParseInt totalRunsStr)"

subsection \<open>Building the table\<close>

text \<open>An index expression \<^verbatim>\<open>d[i]\<close> panics when \<open>i\<close> is out of range; \<open>None\<close> is the panic.\<close>

definition at :: "'a list \<Rightarrow> nat \<Rightarrow> 'a option" where
  "at d i = (if i < length d then Some (d ! i) else None)"

text \<open>The body of the loop of lines 86-92 for one row: the key and the record stored
  under it.\<close>

definition rowEntry :: "string list \<Rightarrow> (string \<times> testInfo) option" where
  "rowEntry d =
     do { name \<leftarrow> at d 0;
          sel \<leftarrow> at d 1;
          dur \<leftarrow> at d 2;
          runs \<leftarrow> at d 3;
          Some (name, \<lparr>selected = (sel \<noteq> ''no''),
                       avgDurationInMillis = getDuration dur,
                       totalRuns = getTotalRuns runs\<rparr>) }"

text \<open>The loop of lines 86-92 over \<^verbatim>\<open>data[1:]\<close>, from the map built so far.\<close>

fun buildTable :: "string list list \<Rightarrow> table \<Rightarrow> table option" where
  "buildTable [] testNamesToRun = Some testNamesToRun"
| "buildTable (d # ds) testNamesToRun =
     (case rowEntry d of
        None \<Rightarrow> None
      | Some (name, info) \<Rightarrow> buildTable ds (testNamesToRun(name \<mapsto> info)))"

subsection \<open>The decision and the selection loop\<close>

text \<open>consumer.go, lines 118-127. The \<^verbatim>\<open>for\<close> whose body returns at once is an
  \<^verbatim>\<open>if\<close>.\<close>

definition testShouldBeSkipped :: "table \<Rightarrow> TestSpec \<Rightarrow> string \<Rightarrow> bool" where
  "testShouldBeSkipped testNamesToRun test suite =
     (if IsInitialized (TestSelectionOptOutSuites test)
         \<and> Contains (TestSelectionOptOutSuites test) suite
      then False
      else case testNamesToRun (Name test) of
             None \<Rightarrow> False
           | Some toRun \<Rightarrow> Skip test = [] \<and> \<not> selected toRun)"

definition markSkipped :: "TestSpec \<Rightarrow> TestSpec" where
  "markSkipped t =
     t\<lparr>Skip := ''test selector'',
       SkipDetails := ''test skipped because it is stable and selective-tests is set.''\<rparr>"

text \<open>The loop of lines 93-102: the slice after the loop and the counter, from the
  counter's value before the loop.\<close>

fun selectLoop :: "table \<Rightarrow> string \<Rightarrow> TestSpec list \<Rightarrow> int \<Rightarrow> TestSpec list \<times> int" where
  "selectLoop testNamesToRun suite [] selectedTestsCount = ([], selectedTestsCount)"
| "selectLoop testNamesToRun suite (t # ts) selectedTestsCount =
     (if testShouldBeSkipped testNamesToRun t suite
      then (case selectLoop testNamesToRun suite ts selectedTestsCount of
              (ts', c) \<Rightarrow> (markSkipped t # ts', c))
      else (case selectLoop testNamesToRun suite ts (selectedTestsCount + 1) of
              (ts', c) \<Rightarrow> (t # ts', c)))"

definition selectTests :: "table \<Rightarrow> TestSpec list \<Rightarrow> string \<Rightarrow> TestSpec list \<times> int" where
  "selectTests testNamesToRun tests suite = selectLoop testNamesToRun suite tests 0"

subsection \<open>The outside world\<close>

text \<open>
  The constants \<^verbatim>\<open>project\<close>, \<^verbatim>\<open>bucket\<close>, \<^verbatim>\<open>testsFileLocation\<close> and
  \<^verbatim>\<open>testsCsvExtension\<close> are declared elsewhere in the package; they are parameters.
\<close>

record config =
  project :: string
  bucket :: string
  testsFileLocation :: string
  testsCsvExtension :: string

text \<open>
  What the process environment, the storage client and the CSV reader answer:
  \<^item> \<open>getenv\<close>: \<^verbatim>\<open>os.Getenv\<close>;
  \<^item> \<open>newClient\<close>: whether \<^verbatim>\<open>storage.NewClient\<close> succeeds, for the quota project and the
    credentials given;
  \<^item> \<open>newReader\<close>: whether the object of a bucket can be opened;
  \<^item> \<open>readAll\<close>: the bytes of the object, or \<open>None\<close> when reading fails;
  \<^item> \<open>csvRecords\<close>: the records that encoding/csv splits the bytes into (lines, commas
    and quoting), or \<open>None\<close> when that fails.
\<close>

record world =
  getenv :: "string \<Rightarrow> string"
  newClient :: "string \<Rightarrow> string option \<Rightarrow> bool"
  newReader :: "string \<Rightarrow> string \<Rightarrow> bool"
  readAll :: "string \<Rightarrow> string \<Rightarrow> string option"
  csvRecords :: "string \<Rightarrow> string list list option"

text \<open>
  \<^verbatim>\<open>csv.NewReader\<close> leaves \<^verbatim>\<open>FieldsPerRecord\<close> at 0, and then \<^verbatim>\<open>ReadAll\<close> takes the
  number of fields of the first record as the number every later record must have,
  and fails otherwise. Nothing asks for four fields.
\<close>

fun fieldCountOk :: "string list list \<Rightarrow> bool" where
  "fieldCountOk [] = True"
| "fieldCountOk (r # rs) = list_all (\<lambda>d. length d = length r) rs"

definition csvReadAll :: "world \<Rightarrow> string \<Rightarrow> string list list option" where
  "csvReadAll w body =
     (case csvRecords w body of
        None \<Rightarrow> None
      | Some data \<Rightarrow> if fieldCountOk data then Some data else None)"

subsection \<open>ReadTestsToRun\<close>

text \<open>The four wrapped errors of lines 56, 63, 69 and 74, by their message; the cause
  they wrap is not kept.\<close>

datatype error =
    ConnectionFailed
  | GetObjectFailed string string
  | ReadFailed
  | CsvDataFailed

datatype outcome = Return "TestSpec list" int "error option" | Panic

text \<open>consumer.go, lines 44-103. \<open>Return tests' n err\<close> is the pair \<^verbatim>\<open>(n, err)\<close> with
  the slice as the call leaves it.\<close>

definition ReadTestsToRun :: "config \<Rightarrow> world \<Rightarrow> TestSpec list \<Rightarrow> string \<Rightarrow> string \<Rightarrow> outcome" where
  "ReadTestsToRun cfg w tests cloud suite =
     (let cj = getenv w ''GOOGLE_EPHEMERAL_CREDENTIALS'';
          credentials = (if length cj \<noteq> 0 then Some cj else None)
      in if \<not> newClient w (project cfg) credentials
         then Return tests (int (length tests)) (Some ConnectionFailed)
         else
           let object = testsFileLocation cfg @ ''-'' @ suite @ ''-'' @ cloud
                          @ ''.'' @ testsCsvExtension cfg
           in if \<not> newReader w (bucket cfg) object
              then Return tests (int (length tests)) (Some (GetObjectFailed object (bucket cfg)))
              else
                case readAll w (bucket cfg) object of
                  None \<Rightarrow> Return tests (int (length tests)) (Some ReadFailed)
                | Some body \<Rightarrow>
                    (case csvReadAll w body of
                       None \<Rightarrow> Return tests (int (length tests)) (Some CsvDataFailed)
                     | Some data \<Rightarrow>
                         if length data \<le> 1 then Return tests (int (length tests)) None
                         else
                           (case buildTable (tl data) Map.empty of
                              None \<Rightarrow> Panic
                            | Some testNamesToRun \<Rightarrow>
                                (case selectTests testNamesToRun tests suite of
                                   (tests', selectedTestsCount) \<Rightarrow>
                                     Return tests' selectedTestsCount None))))"

text \<open>Lines 47-75 alone: the parsed rows, or the error the function returns with.\<close>

definition fetchData :: "config \<Rightarrow> world \<Rightarrow> string \<Rightarrow> string \<Rightarrow> error + string list list" where
  "fetchData cfg w cloud suite =
     (let cj = getenv w ''GOOGLE_EPHEMERAL_CREDENTIALS'';
          credentials = (if length cj \<noteq> 0 then Some cj else None)
      in if \<not> newClient w (project cfg) credentials then Inl ConnectionFailed
         else
           let object = testsFileLocation cfg @ ''-'' @ suite @ ''-'' @ cloud
                          @ ''.'' @ testsCsvExtension cfg
           in if \<not> newReader w (bucket cfg) object
              then Inl (GetObjectFailed object (bucket cfg))
              else
                case readAll w (bucket cfg) object of
                  None \<Rightarrow> Inl ReadFailed
                | Some body \<Rightarrow>
                    (case csvReadAll w body of
                       None \<Rightarrow> Inl CsvDataFailed
                     | Some data \<Rightarrow> Inr data))"



subsection \<open>Example inputs\<close>

text \<open>Concrete values at which the theorems below are instantiated.\<close>

definition exampleConfig :: config where
  "exampleConfig =
     \<lparr>project = ''cockroach-ephemeral'', bucket = ''roachtest'',
      testsFileLocation = ''selected-tests'', testsCsvExtension = ''csv''\<rparr>"

definition exampleWorld :: "bool \<Rightarrow> bool \<Rightarrow> string option \<Rightarrow> string list list option \<Rightarrow> world" where
  "exampleWorld client reader body records =
     \<lparr>getenv = (\<lambda>_. []), newClient = (\<lambda>_ _. client), newReader = (\<lambda>_ _. reader),
      readAll = (\<lambda>_ _. body), csvRecords = (\<lambda>_. records)\<rparr>"

definition worldWith :: "string list list \<Rightarrow> world" where
  "worldWith data = exampleWorld True True (Some []) (Some data)"

definition header :: "string list" where
  "header = [''TEST_NAME'', ''SELECTED'', ''AVG_DURATION'', ''TOTAL_RUNS'']"

definition rowA :: "string list" where
  "rowA = [''A'', ''no'', ''100'', ''5'']"

definition infoA :: testInfo where
  "infoA = \<lparr>selected = False, avgDurationInMillis = 100, totalRuns = 5\<rparr>"

definition testA :: TestSpec where
  "testA = \<lparr>Name = ''A'', Skip = [], SkipDetails = [], TestSelectionOptOutSuites = Suites {}\<rparr>"

definition testB :: TestSpec where
  "testB = \<lparr>Name = ''B'', Skip = [], SkipDetails = [], TestSelectionOptOutSuites = Uninitialized\<rparr>"

definition testAflaky :: TestSpec where
  "testAflaky = \<lparr>Name = ''A'', Skip = ''flaky'', SkipDetails = ''see issue'',
                  TestSelectionOptOutSuites = Uninitialized\<rparr>"

definition testAoptout :: TestSpec where
  "testAoptout = \<lparr>Name = ''A'', Skip = [], SkipDetails = [],
                   TestSelectionOptOutSuites = Suites {''nightly'', ''weekly''}\<rparr>"

section \<open>Properties\<close>

subsection \<open>The loops in closed form\<close>

lemma selectLoop_eq:
  "selectLoop tbl suite tests c =
     (map (\<lambda>t. if testShouldBeSkipped tbl t suite then markSkipped t else t) tests,
      c + int (length (filter (\<lambda>t. \<not> testShouldBeSkipped tbl t suite) tests)))"
  by (induction tests arbitrary: c) auto

lemma selectTests_eq:
  "selectTests tbl tests suite =
     (map (\<lambda>t. if testShouldBeSkipped tbl t suite then markSkipped t else t) tests,
      int (length (filter (\<lambda>t. \<not> testShouldBeSkipped tbl t suite) tests)))"
  by (simp add: selectTests_def selectLoop_eq)

subsection \<open>ReadTestsToRun in terms of its parts\<close>


lemma ReadTestsToRun_data:
  "fetchData cfg w cloud suite = Inr data \<Longrightarrow>
   ReadTestsToRun cfg w tests cloud suite =
     (if length data \<le> 1 then Return tests (int (length tests)) None
      else case buildTable (tl data) Map.empty of
             None \<Rightarrow> Panic
           | Some tbl \<Rightarrow> Return (fst (selectTests tbl tests suite))
                                (snd (selectTests tbl tests suite)) None)"
  unfolding ReadTestsToRun_def fetchData_def Let_def
  by (auto split: if_splits option.splits prod.splits)

lemma short_data_tl: "length data \<le> 1 \<Longrightarrow> tl data = []"
  by (cases data) auto

lemma ReadTestsToRun_table:
  assumes "fetchData cfg w cloud suite = Inr data"
      and "buildTable (tl data) Map.empty = Some tbl"
  shows "ReadTestsToRun cfg w tests cloud suite =
           Return (map (\<lambda>t. if testShouldBeSkipped tbl t suite then markSkipped t else t) tests)
                  (int (length (filter (\<lambda>t. \<not> testShouldBeSkipped tbl t suite) tests))) None"
proof (cases "length data \<le> 1")
  case True
  with assms(2) have "tbl = Map.empty"
    by (simp add: short_data_tl)
  then have "\<And>t. \<not> testShouldBeSkipped tbl t suite"
    by (simp add: testShouldBeSkipped_def)
  then show ?thesis
    using True assms(1) by (simp add: ReadTestsToRun_data)
next
  case False
  then show ?thesis
    using assms by (simp add: ReadTestsToRun_data selectTests_eq)
qed

subsection \<open>The example inputs\<close>

lemma fetchData_worldWith:
  "fieldCountOk data \<Longrightarrow> fetchData cfg (worldWith data) cloud suite = Inr data"
  by (simp add: fetchData_def worldWith_def exampleWorld_def csvReadAll_def)

lemmas parse_defs = getDuration_def getTotalRuns_def ParseInt_def ParseUint_def digitOf_def
  lower_def maxUint64_def

lemma rowEntry_rowA: "rowEntry rowA = Some (''A'', infoA)"
  by (simp add: rowEntry_def rowA_def infoA_def at_def parse_defs)

lemma table_rowA: "buildTable (tl [header, rowA]) Map.empty = Some [''A'' \<mapsto> infoA]"
  by (simp add: rowEntry_rowA)

subsection \<open>Candidates that already carry a skip\<close>

text \<open>
  Claim C1, as stated, says that a candidate with a non-empty \<^verbatim>\<open>Skip\<close> is left out of the
  returned count. The code counts it: \<^verbatim>\<open>testShouldBeSkipped\<close> answers false for it, and
  the loop increments the counter in the \<^verbatim>\<open>else\<close> branch. With the table holding
  ``A, no, 100, 5'' and the single candidate A already skipped as ``flaky'', the call returns
  the count 1, not 0.
\<close>

theorem preexisting_skip_is_counted:
  "Skip testAflaky \<noteq> [] \<and>
   ReadTestsToRun exampleConfig (worldWith [header, rowA]) [testAflaky] ''gce'' ''nightly''
     = Return [testAflaky] 1 None"
proof -
  have "fetchData exampleConfig (worldWith [header, rowA]) ''gce'' ''nightly'' = Inr [header, rowA]"
    by (rule fetchData_worldWith) (simp add: header_def rowA_def)
  then show ?thesis
    using table_rowA
    by (simp add: ReadTestsToRun_table testShouldBeSkipped_def testAflaky_def)
qed

text \<open>
  Claim C1, amended: a candidate with a non-empty pre-existing \<^verbatim>\<open>Skip\<close> is never
  overwritten, and it is counted. On the successful path the returned value is the number
  of candidates for which \<^verbatim>\<open>testShouldBeSkipped\<close> is false, and every candidate with a
  pre-existing skip is one of them.
\<close>

theorem preexisting_skip_kept_and_counted:
  assumes "fetchData cfg w cloud suite = Inr data"
      and "buildTable (tl data) Map.empty = Some tbl"
      and "i < length tests"
      and "Skip (tests ! i) \<noteq> []"
  shows "\<exists>tests'. ReadTestsToRun cfg w tests cloud suite =
            Return tests' (int (length (filter (\<lambda>t. \<not> testShouldBeSkipped tbl t suite) tests))) None
          \<and> length tests' = length tests
          \<and> tests' ! i = tests ! i
          \<and> \<not> testShouldBeSkipped tbl (tests ! i) suite"
proof -
  have "\<not> testShouldBeSkipped tbl (tests ! i) suite"
    using assms(4) by (simp add: testShouldBeSkipped_def split: option.splits)
  then show ?thesis
    using assms(1-3) by (simp add: ReadTestsToRun_table)
qed

theorem preexisting_skip_kept_and_counted_witness:
  "\<exists>tests'. ReadTestsToRun exampleConfig (worldWith [header, rowA]) [testB, testAflaky] ''gce'' ''nightly''
      = Return tests' 2 None \<and> tests' ! 1 = testAflaky"
proof -
  have f: "fetchData exampleConfig (worldWith [header, rowA]) ''gce'' ''nightly'' = Inr [header, rowA]"
    by (rule fetchData_worldWith) (simp add: header_def rowA_def)
  have s: "Skip ([testB, testAflaky] ! 1) \<noteq> []"
    by (simp add: testAflaky_def)
  show ?thesis
    using preexisting_skip_kept_and_counted [OF f table_rowA _ s]
    by (auto simp add: testShouldBeSkipped_def testAflaky_def testB_def)
qed

subsection \<open>The opt-out override\<close>

text \<open>
  Claim C2: a candidate whose opt-out set is initialised and contains the suite is never
  marked skipped and is counted, whatever the table holds. The selection loop leaves it as
  it was, \<^verbatim>\<open>testShouldBeSkipped\<close> is false for it, and the count is the number of
  candidates for which \<^verbatim>\<open>testShouldBeSkipped\<close> is false.
\<close>

theorem optout_never_skipped:
  assumes "i < length tests"
      and "IsInitialized (TestSelectionOptOutSuites (tests ! i))"
      and "Contains (TestSelectionOptOutSuites (tests ! i)) suite"
  shows "\<not> testShouldBeSkipped tbl (tests ! i) suite
       \<and> fst (selectTests tbl tests suite) ! i = tests ! i
       \<and> snd (selectTests tbl tests suite)
           = int (length (filter (\<lambda>t. \<not> testShouldBeSkipped tbl t suite) tests))"
  using assms by (simp add: selectTests_eq testShouldBeSkipped_def)

theorem optout_never_skipped_witness:
  "selectTests [''A'' \<mapsto> infoA] [testAoptout, testA] ''nightly''
     = ([testAoptout, markSkipped testA], 1)
   \<and> \<not> testShouldBeSkipped [''A'' \<mapsto> infoA] testAoptout ''nightly''"
proof -
  have i: "0 < length [testAoptout, testA]" by simp
  have a: "IsInitialized (TestSelectionOptOutSuites ([testAoptout, testA] ! 0))"
    by (simp add: testAoptout_def)
  have b: "Contains (TestSelectionOptOutSuites ([testAoptout, testA] ! 0)) ''nightly''"
    by (simp add: testAoptout_def)
  have "selectTests [''A'' \<mapsto> infoA] [testAoptout, testA] ''nightly''
          = ([testAoptout, markSkipped testA], 1)"
    by (simp add: selectTests_def testShouldBeSkipped_def testAoptout_def testA_def infoA_def)
  then show ?thesis
    using optout_never_skipped [OF i a b, of "[''A'' \<mapsto> infoA]"] by simp
qed

subsection \<open>Candidates without a record\<close>

text \<open>
  Claim C3: a candidate whose name has no entry in the table is left as it was and is
  counted in the value that \<^verbatim>\<open>ReadTestsToRun\<close> returns. (The theorem does not need the
  candidate to be free of an opt-out.)
\<close>

theorem absent_never_skipped:
  assumes "fetchData cfg w cloud suite = Inr data"
      and "buildTable (tl data) Map.empty = Some tbl"
      and "i < length tests"
      and "tbl (Name (tests ! i)) = None"
  shows "\<exists>tests'. ReadTestsToRun cfg w tests cloud suite =
            Return tests' (int (length (filter (\<lambda>t. \<not> testShouldBeSkipped tbl t suite) tests))) None
          \<and> length tests' = length tests
          \<and> tests' ! i = tests ! i
          \<and> \<not> testShouldBeSkipped tbl (tests ! i) suite"
proof -
  have "\<not> testShouldBeSkipped tbl (tests ! i) suite"
    using assms(4) by (simp add: testShouldBeSkipped_def)
  then show ?thesis
    using assms(1-3) by (simp add: ReadTestsToRun_table)
qed

theorem absent_never_skipped_witness:
  "\<exists>tests'. ReadTestsToRun exampleConfig (worldWith [header, rowA]) [testA, testB] ''gce'' ''acceptance''
      = Return tests' 1 None \<and> tests' ! 1 = testB"
proof -
  have f: "fetchData exampleConfig (worldWith [header, rowA]) ''gce'' ''acceptance'' = Inr [header, rowA]"
    by (rule fetchData_worldWith) (simp add: header_def rowA_def)
  have i: "1 < length [testA, testB]" by simp
  have a: "[''A'' \<mapsto> infoA] (Name ([testA, testB] ! 1)) = None"
    by (simp add: testB_def)
  show ?thesis
    using absent_never_skipped [OF f table_rowA i a]
    by (auto simp add: testShouldBeSkipped_def testA_def testB_def infoA_def)
qed

subsection \<open>The historical skip\<close>

text \<open>
  Claim C4: a candidate with a record whose \<^verbatim>\<open>selected\<close> is false, no opt-out for the
  suite and an empty \<^verbatim>\<open>Skip\<close> gets the fixed marker and the fixed details and is not
  counted; every other candidate is returned as it was given (and is counted).
\<close>

theorem historical_skip_exact:
  assumes "fetchData cfg w cloud suite = Inr data"
      and "buildTable (tl data) Map.empty = Some tbl"
      and "i < length tests"
  shows "\<exists>tests'. ReadTestsToRun cfg w tests cloud suite =
            Return tests' (int (length (filter (\<lambda>t. \<not> testShouldBeSkipped tbl t suite) tests))) None
          \<and> length tests' = length tests
          \<and> (if (\<exists>info. tbl (Name (tests ! i)) = Some info \<and> \<not> selected info)
                  \<and> \<not> (IsInitialized (TestSelectionOptOutSuites (tests ! i))
                         \<and> Contains (TestSelectionOptOutSuites (tests ! i)) suite)
                  \<and> Skip (tests ! i) = []
               then tests' ! i = (tests ! i)\<lparr>Skip := ''test selector'',
                      SkipDetails := ''test skipped because it is stable and selective-tests is set.''\<rparr>
                    \<and> testShouldBeSkipped tbl (tests ! i) suite
               else tests' ! i = tests ! i
                    \<and> \<not> testShouldBeSkipped tbl (tests ! i) suite)"
  using assms
  by (auto simp add: ReadTestsToRun_table testShouldBeSkipped_def markSkipped_def
           split: option.splits)

theorem historical_skip_exact_witness:
  "\<exists>tests'. ReadTestsToRun exampleConfig (worldWith [header, rowA]) [testA, testB] ''gce'' ''acceptance''
      = Return tests' 1 None
    \<and> tests' ! 0 = testA\<lparr>Skip := ''test selector'',
                  SkipDetails := ''test skipped because it is stable and selective-tests is set.''\<rparr>"
proof -
  have f: "fetchData exampleConfig (worldWith [header, rowA]) ''gce'' ''acceptance'' = Inr [header, rowA]"
    by (rule fetchData_worldWith) (simp add: header_def rowA_def)
  have i0: "0 < length [testA, testB]" by simp
  have c: "int (length (filter (\<lambda>t. \<not> testShouldBeSkipped [''A'' \<mapsto> infoA] t ''acceptance'') [testA, testB])) = 1"
    by (simp add: testShouldBeSkipped_def testA_def testB_def infoA_def)
  have d: "(\<exists>info. [''A'' \<mapsto> infoA] (Name ([testA, testB] ! 0)) = Some info \<and> \<not> selected info)
                  \<and> \<not> (IsInitialized (TestSelectionOptOutSuites ([testA, testB] ! 0))
                         \<and> Contains (TestSelectionOptOutSuites ([testA, testB] ! 0)) ''acceptance'')
                  \<and> Skip ([testA, testB] ! 0) = []"
    by (simp add: testA_def infoA_def)
  show ?thesis
    using historical_skip_exact [OF f table_rowA i0] unfolding c if_P [OF d]
    by auto
qed

subsection \<open>A payload with the header only\<close>

text \<open>
  Claim C5: when the parsed payload has at most one row (the header alone, or nothing), the
  call succeeds, returns the slice exactly as it was given, and the count is the number of
  candidates.
\<close>

theorem header_only_selects_all:
  assumes "fetchData cfg w cloud suite = Inr data"
      and "length data \<le> 1"
  shows "ReadTestsToRun cfg w tests cloud suite = Return tests (int (length tests)) None"
  using assms by (simp add: ReadTestsToRun_data)

theorem header_only_selects_all_witness:
  "ReadTestsToRun exampleConfig (worldWith [header]) [testA, testAflaky] ''gce'' ''nightly''
     = Return [testA, testAflaky] 2 None
   \<and> ReadTestsToRun exampleConfig (worldWith []) [testA, testAflaky] ''gce'' ''nightly''
     = Return [testA, testAflaky] 2 None"
proof -
  have f1: "fetchData exampleConfig (worldWith [header]) ''gce'' ''nightly'' = Inr [header]"
    by (rule fetchData_worldWith) simp
  have f0: "fetchData exampleConfig (worldWith []) ''gce'' ''nightly'' = Inr []"
    by (rule fetchData_worldWith) simp
  have l1: "length [header] \<le> 1" by simp
  have l0: "length ([] :: string list list) \<le> 1" by simp
  show ?thesis
    using header_only_selects_all [OF f1 l1, of "[testA, testAflaky]"]
          header_only_selects_all [OF f0 l0, of "[testA, testAflaky]"]
    by simp
qed

subsection \<open>Fatal errors\<close>






subsection \<open>Numeric cells\<close>

lemma rowEntry_Some:
  "4 \<le> length d \<Longrightarrow>
   rowEntry d = Some (d ! 0, \<lparr>selected = (d ! 1 \<noteq> ''no''),
                              avgDurationInMillis = getDuration (d ! 2),
                              totalRuns = getTotalRuns (d ! 3)\<rparr>)"
  by (auto simp add: rowEntry_def at_def)

lemma parseDigits_syntax_zero:
  "snd (parseDigits s n) = Some ErrSyntax \<Longrightarrow> fst (parseDigits s n) = 0"
  by (induction s arbitrary: n) (auto simp add: Let_def split: option.splits if_splits)

lemma parseDigits_range_max:
  "snd (parseDigits s n) = Some ErrRange \<Longrightarrow> fst (parseDigits s n) = maxUint64"
  by (induction s arbitrary: n) (auto simp add: Let_def split: option.splits if_splits)



lemma ParseInt_int64:
  "- (2 ^ 63) \<le> fst (ParseInt s) \<and> fst (ParseInt s) \<le> 2 ^ 63 - 1"
  by (auto simp add: ParseInt_def Let_def split: prod.splits if_splits)

text \<open>A cell that is empty, is a bare sign, or has a byte other than a decimal digit among
  the first 19 bytes after an optional sign is a syntax error, whatever follows.\<close>

lemma digitOf_le9: "digitOf c = Some d \<Longrightarrow> d \<le> 9"
  by (auto simp add: digitOf_def Let_def split: if_splits option.splits)

lemma parseDigits_nondigit:
  assumes "\<exists>c\<in>set (take k s). digitOf c = None" and "n < 10 ^ j" and "j + k \<le> 19"
  shows "parseDigits s n = (0, Some ErrSyntax)"
  using assms
proof (induction s arbitrary: n j k)
  case Nil
  then show ?case by simp
next
  case (Cons c cs)
  show ?case
  proof (cases "digitOf c")
    case None
    then show ?thesis by simp
  next
    case (Some d)
    obtain k' where k: "k = Suc k'"
      using Cons.prems(1) by (cases k) auto
    have ex: "\<exists>c\<in>set (take k' cs). digitOf c = None"
      using Cons.prems(1) Some k by auto
    have d9: "d \<le> 9"
      using Some by (rule digitOf_le9)
    have "j \<le> 18"
      using Cons.prems(3) k by simp
    then have "(10::nat) ^ j \<le> 10 ^ 18"
      by (rule power_increasing) simp
    then have n18: "n < 10 ^ 18"
      using Cons.prems(2) by simp
    have n1: "n * 10 + d < 10 ^ Suc j"
      using Cons.prems(2) d9 by simp
    have "Suc j \<le> 19"
      using Cons.prems(3) k by simp
    then have "(10::nat) ^ Suc j \<le> 10 ^ 19"
      by (rule power_increasing) simp
    then have small: "n * 10 + d < 10 ^ 19"
      using n1 by simp
    have step: "parseDigits (c # cs) n = parseDigits cs (n * 10 + d)"
      using Some n18 small by (simp add: maxUint64_def Let_def)
    have "j + 1 + k' \<le> 19"
      using Cons.prems(3) k by simp
    then show ?thesis
      unfolding step using Cons.IH [OF ex, of "n * 10 + d" "Suc j"] n1 by simp
  qed
qed

lemma ParseInt_nondigit:
  assumes "body = (if s \<noteq> [] \<and> (hd s = CHR ''+'' \<or> hd s = CHR ''-'') then tl s else s)"
      and "body = [] \<or> (\<exists>c\<in>set (take 19 body). digitOf c = None)"
  shows "ParseInt s = (0, Some ErrSyntax)"
proof (cases "body = []")
  case True
  then show ?thesis
    using assms(1) by (auto simp add: ParseInt_def ParseUint_def Let_def split: if_splits)
next
  case False
  then have "parseDigits body 0 = (0, Some ErrSyntax)"
    using assms(2) parseDigits_nondigit [of 19 body 0 0] by simp
  then show ?thesis
    using False assms(1) by (auto simp add: ParseInt_def ParseUint_def Let_def split: if_splits)
qed




subsection \<open>Duplicate names\<close>

lemma buildTable_lookup:
  assumes "\<forall>d\<in>set rows. 4 \<le> length d"
  shows "buildTable rows m =
           Some (\<lambda>name. if \<exists>d\<in>set rows. d ! 0 = name
                         then map_option snd (rowEntry (last (filter (\<lambda>d. d ! 0 = name) rows)))
                         else m name)"
  using assms
proof (induction rows arbitrary: m)
  case Nil
  then show ?case by simp
next
  case (Cons d ds)
  have d: "4 \<le> length d" and ds: "\<forall>e\<in>set ds. 4 \<le> length e"
    using Cons.prems by simp_all
  have "buildTable (d # ds) m
          = buildTable ds (m(d ! 0 \<mapsto> snd (the (rowEntry d))))"
    using d by (simp add: rowEntry_Some)
  also have "\<dots> = Some (\<lambda>name. if \<exists>e\<in>set ds. e ! 0 = name
                         then map_option snd (rowEntry (last (filter (\<lambda>e. e ! 0 = name) ds)))
                         else (m(d ! 0 \<mapsto> snd (the (rowEntry d)))) name)"
    by (rule Cons.IH [OF ds])
  also have "(\<lambda>name. if \<exists>e\<in>set ds. e ! 0 = name
                         then map_option snd (rowEntry (last (filter (\<lambda>e. e ! 0 = name) ds)))
                         else (m(d ! 0 \<mapsto> snd (the (rowEntry d)))) name)
           = (\<lambda>name. if \<exists>e\<in>set (d # ds). e ! 0 = name
                         then map_option snd (rowEntry (last (filter (\<lambda>e. e ! 0 = name) (d # ds))))
                         else m name)"
  proof (rule ext)
    fix name
    show "(if \<exists>e\<in>set ds. e ! 0 = name
                         then map_option snd (rowEntry (last (filter (\<lambda>e. e ! 0 = name) ds)))
                         else (m(d ! 0 \<mapsto> snd (the (rowEntry d)))) name)
           = (if \<exists>e\<in>set (d # ds). e ! 0 = name
                         then map_option snd (rowEntry (last (filter (\<lambda>e. e ! 0 = name) (d # ds))))
                         else m name)"
    proof (cases "\<exists>e\<in>set ds. e ! 0 = name")
      case True
      then have "filter (\<lambda>e. e ! 0 = name) ds \<noteq> []"
        by (simp add: filter_empty_conv)
      then show ?thesis using True by simp
    next
      case False
      then have "filter (\<lambda>e. e ! 0 = name) ds = []"
        by (simp add: filter_empty_conv)
      then show ?thesis using False d by (simp add: rowEntry_Some)
    qed
  qed
  finally show ?case .
qed

text \<open>
  Claim C8: the table built from rows of at least four fields has one record for each name
  that occurs in the first column and no other, and the record of a name is the one built
  from the last row that carries this name.
\<close>

theorem last_row_wins:
  assumes "\<forall>d\<in>set rows. 4 \<le> length d"
  shows "\<exists>tbl. buildTable rows Map.empty = Some tbl
          \<and> dom tbl = (\<lambda>d. d ! 0) ` set rows
          \<and> (\<forall>d\<in>set rows.
                tbl (d ! 0) = map_option snd (rowEntry (last (filter (\<lambda>r. r ! 0 = d ! 0) rows))))"
proof -
  let ?tbl = "\<lambda>name. if \<exists>d\<in>set rows. d ! 0 = name
                         then map_option snd (rowEntry (last (filter (\<lambda>d. d ! 0 = name) rows)))
                         else None"
  have b: "buildTable rows Map.empty = Some ?tbl"
    by (rule buildTable_lookup [OF assms])
  have some: "rowEntry (last (filter (\<lambda>r. r ! 0 = name) rows)) \<noteq> None"
    if "\<exists>d\<in>set rows. d ! 0 = name" for name
  proof -
    from that have "filter (\<lambda>r. r ! 0 = name) rows \<noteq> []"
      by (simp add: filter_empty_conv)
    then have "last (filter (\<lambda>r. r ! 0 = name) rows) \<in> set (filter (\<lambda>r. r ! 0 = name) rows)"
      by (rule last_in_set)
    then have "4 \<le> length (last (filter (\<lambda>r. r ! 0 = name) rows))"
      using assms by simp
    then show ?thesis by (simp add: rowEntry_Some)
  qed
  have "(?tbl name \<noteq> None) = (\<exists>d\<in>set rows. d ! 0 = name)" for name
    using some [of name] by auto
  then have "dom ?tbl = {name. \<exists>d\<in>set rows. d ! 0 = name}"
    unfolding dom_def by blast
  moreover have "{name. \<exists>d\<in>set rows. d ! 0 = name} = (\<lambda>d. d ! 0) ` set rows"
    by auto
  ultimately have "dom ?tbl = (\<lambda>d. d ! 0) ` set rows"
    by simp
  moreover have "\<forall>d\<in>set rows.
                ?tbl (d ! 0) = map_option snd (rowEntry (last (filter (\<lambda>r. r ! 0 = d ! 0) rows)))"
    by auto
  ultimately show ?thesis using b by blast
qed

theorem last_row_wins_witness:
  "\<exists>tbl. buildTable [[''A'', ''no'', ''100'', ''5''], [''B'', ''yes'', ''7'', ''1''],
                       [''A'', ''yes'', ''250'', ''9'']] Map.empty = Some tbl
     \<and> dom tbl = {''A'', ''B''}
     \<and> tbl ''A'' = Some \<lparr>selected = True, avgDurationInMillis = 250, totalRuns = 9\<rparr>"
proof -
  have h: "\<forall>d\<in>set [[''A'', ''no'', ''100'', ''5''], [''B'', ''yes'', ''7'', ''1''],
                       [''A'', ''yes'', ''250'', ''9'']]. 4 \<le> length d"
    by simp
  have r: "rowEntry [''A'', ''yes'', ''250'', ''9'']
             = Some (''A'', \<lparr>selected = True, avgDurationInMillis = 250, totalRuns = 9\<rparr>)"
    by (simp add: rowEntry_def at_def parse_defs)
  show ?thesis
    using last_row_wins [OF h] by (auto simp add: r)
qed

subsection \<open>Idempotence\<close>

lemma markSkipped_not_skipped: "\<not> testShouldBeSkipped tbl (markSkipped t) suite"
  by (simp add: testShouldBeSkipped_def markSkipped_def split: option.splits)

text \<open>
  Claim C9: running the selection loop again, with the same table and suite, on the slice
  it produced changes no candidate.
\<close>

theorem selection_idempotent:
  "fst (selectTests tbl (fst (selectTests tbl tests suite)) suite) = fst (selectTests tbl tests suite)"
  by (simp add: selectTests_eq markSkipped_not_skipped)

theorem selection_idempotent_witness:
  "fst (selectTests [''A'' \<mapsto> infoA] [testA, testB, testAflaky] ''nightly'')
     = [markSkipped testA, testB, testAflaky]
   \<and> fst (selectTests [''A'' \<mapsto> infoA] [markSkipped testA, testB, testAflaky] ''nightly'')
     = [markSkipped testA, testB, testAflaky]"
proof -
  have a: "fst (selectTests [''A'' \<mapsto> infoA] [testA, testB, testAflaky] ''nightly'')
     = [markSkipped testA, testB, testAflaky]"
    by (simp add: selectTests_def testShouldBeSkipped_def testA_def testB_def testAflaky_def
          infoA_def)
  show ?thesis
    using a selection_idempotent [of "[''A'' \<mapsto> infoA]" "[testA, testB, testAflaky]" "''nightly''"]
    by simp
qed

subsection \<open>Rows with fewer than four fields\<close>

lemma rowEntry_None: "(rowEntry d = None) = (length d < 4)"
  by (auto simp add: rowEntry_def at_def)

lemma buildTable_None: "(buildTable rows m = None) = (\<exists>d\<in>set rows. length d < 4)"
proof (induction rows arbitrary: m)
  case Nil
  then show ?case by simp
next
  case (Cons d ds)
  show ?case
  proof (cases "rowEntry d")
    case None
    then show ?thesis by (simp add: rowEntry_None [symmetric])
  next
    case (Some e)
    then have "\<not> length d < 4"
      using rowEntry_None [of d] by simp
    then show ?thesis
      using Some Cons.IH by (cases e) simp
  qed
qed

text \<open>
  Claim C10: once the payload has been fetched and parsed, \<^verbatim>\<open>ReadTestsToRun\<close> panics exactly
  when there is a data row with fewer than four fields. The CSV reader accepts such rows as
  long as every row has as many fields as the header, so a payload of three-column rows
  is parsed without error and the call panics instead of returning a parse error.
\<close>

theorem short_rows_panic:
  assumes "fetchData cfg w cloud suite = Inr data"
  shows "(ReadTestsToRun cfg w tests cloud suite = Panic)
           = (1 < length data \<and> (\<exists>d\<in>set (tl data). length d < 4))"
proof (cases "length data \<le> 1")
  case True
  then show ?thesis using assms by (simp add: ReadTestsToRun_data)
next
  case False
  then show ?thesis
    using assms buildTable_None [of "tl data" Map.empty]
    by (auto simp add: ReadTestsToRun_data split: option.splits)
qed

theorem short_rows_panic_witness:
  "fieldCountOk [[''TEST_NAME'', ''SELECTED'', ''AVG_DURATION''], [''A'', ''no'', ''100'']]
   \<and> fetchData exampleConfig
        (worldWith [[''TEST_NAME'', ''SELECTED'', ''AVG_DURATION''], [''A'', ''no'', ''100'']])
        ''gce'' ''nightly''
       = Inr [[''TEST_NAME'', ''SELECTED'', ''AVG_DURATION''], [''A'', ''no'', ''100'']]
   \<and> ReadTestsToRun exampleConfig
        (worldWith [[''TEST_NAME'', ''SELECTED'', ''AVG_DURATION''], [''A'', ''no'', ''100'']])
        [testA, testB] ''gce'' ''nightly''
       = Panic"
proof -
  have ok: "fieldCountOk [[''TEST_NAME'', ''SELECTED'', ''AVG_DURATION''], [''A'', ''no'', ''100'']]"
    by simp
  have f: "fetchData exampleConfig
        (worldWith [[''TEST_NAME'', ''SELECTED'', ''AVG_DURATION''], [''A'', ''no'', ''100'']])
        ''gce'' ''nightly''
       = Inr [[''TEST_NAME'', ''SELECTED'', ''AVG_DURATION''], [''A'', ''no'', ''100'']]"
    by (rule fetchData_worldWith [OF ok])
  show ?thesis
    using ok f short_rows_panic [OF f, of "[testA, testB]"] by simp
qed

end
